theory Spec2Isabelle
  imports Complex_Main
begin

section \<open>Conventions of the embedding\<close>

text \<open>
  The development embeds the metric aggregator of the Hyperion fleet manager
  (\<^verbatim>\<open>src/automation/lambda/metric_aggregator\<close>): \<^verbatim>\<open>metrics.py\<close>, \<^verbatim>\<open>config.py\<close>,
  \<^verbatim>\<open>cloudwatch_client.py\<close>, \<^verbatim>\<open>ssm_client.py\<close> and \<^verbatim>\<open>handler.py\<close>.

  \<^item> A Python \<^verbatim>\<open>float\<close> is an exact \<^typ>\<open>real\<close>: there is no NaN, no infinity, no
    binary rounding error and no overflow. A Python \<^verbatim>\<open>int\<close> is an \<^typ>\<open>int\<close>.
  \<^item> Every raise of the source is a value: functions that can raise return
    \<open>error + result\<close> with \<open>Inl\<close> for the exception. Python's \<^verbatim>\<open>/\<close> is \<open>py_div\<close>,
    which raises on a zero divisor, also where the source guards the division.
  \<^item> The AWS services are parameters: a function from the request (and, for the
    metric sink, from the calls made so far) to the answer.
  \<^item> Logging is left out, except the one error record of \<^verbatim>\<open>publish_metrics\<close>.
\<close>

datatype py_error = ZeroDivisionError | ValueError | IndexError | KeyError

definition bind_err :: "'e + 'a \<Rightarrow> ('a \<Rightarrow> 'e + 'b) \<Rightarrow> 'e + 'b" where
  "bind_err r f = (case r of Inl e \<Rightarrow> Inl e | Inr v \<Rightarrow> f v)"

definition py_div :: "real \<Rightarrow> real \<Rightarrow> py_error + real" where
  "py_div a b = (if b = 0 then Inl ZeroDivisionError else Inr (a / b))"

text \<open>
  \<^verbatim>\<open>round(x, ndigits)\<close> on the exact value: the nearest multiple of \<open>10^-ndigits\<close>, a tie
  going to the even one.
\<close>

definition round_half_even :: "real \<Rightarrow> int" where
  "round_half_even y =
     (let f = \<lfloor>y\<rfloor>; d = y - of_int f
      in if d < 1 / 2 then f else if d > 1 / 2 then f + 1 else if even f then f else f + 1)"

definition py_round :: "real \<Rightarrow> nat \<Rightarrow> real" where
  "py_round x ndigits = of_int (round_half_even (x * 10 ^ ndigits)) / 10 ^ ndigits"

section \<open>config.py\<close>



definition COMPLIANCE_WARNING :: real where "COMPLIANCE_WARNING = 90"
definition COMPLIANCE_CRITICAL :: real where "COMPLIANCE_CRITICAL = 80"

section \<open>metrics.py: the data model\<close>

datatype HealthStatus = HEALTHY | WARNING | CRITICAL | UNKNOWN

text \<open>
  \<^verbatim>\<open>ComplianceStatus.UNKNOWN\<close> is \<open>COMPLIANCE_UNKNOWN\<close>, the name \<open>UNKNOWN\<close> being taken
  by \<open>HealthStatus\<close>.
\<close>

datatype ComplianceStatus = COMPLIANT | NON_COMPLIANT | COMPLIANCE_UNKNOWN

text \<open>A point in time, as the clock gives it (microseconds since the epoch).\<close>

type_synonym datetime = int

text \<open>A dimension \<^verbatim>\<open>{"Name": n, "Value": v}\<close> is the pair \<open>(n, v)\<close>.\<close>

type_synonym dimension = "string \<times> string"

record MetricValue =
  mv_name :: string
  mv_value :: real
  mv_unit :: string
  mv_dimensions :: "dimension list"
  mv_timestamp :: datetime

record InstanceMetrics =
  instance_id :: string
  instance_type :: string
  availability_zone :: string
  state :: string
  cpu_utilization :: "real option"
  memory_utilization :: "real option"
  disk_utilization :: "real option"
  is_compliant :: "bool option"
  hourly_cost :: real

record FleetMetrics =
  total_instances :: int
  running_instances :: int
  stopped_instances :: int
  pending_instances :: int
  avg_cpu_utilization :: real
  avg_memory_utilization :: real
  avg_disk_utilization :: real
  compliant_instances :: int
  non_compliant_instances :: int
  total_hourly_cost :: real
  instance_metrics :: "InstanceMetrics list"

text \<open>\<^verbatim>\<open>FleetMetrics()\<close>: every field at its default.\<close>

definition FleetMetrics_default :: FleetMetrics where
  "FleetMetrics_default =
     \<lparr>total_instances = 0, running_instances = 0, stopped_instances = 0,
      pending_instances = 0, avg_cpu_utilization = 0, avg_memory_utilization = 0,
      avg_disk_utilization = 0, compliant_instances = 0, non_compliant_instances = 0,
      total_hourly_cost = 0, instance_metrics = []\<rparr>"

section \<open>metrics.py: FleetHealthScore\<close>

definition calculate_utilization_health :: "real \<Rightarrow> real \<Rightarrow> real \<Rightarrow> py_error + real" where
  "calculate_utilization_health utilization warning_threshold critical_threshold =
     (if utilization \<le> warning_threshold then
        bind_err (py_div utilization warning_threshold) (\<lambda>q. Inr (100 - q * 30))
      else if utilization \<le> critical_threshold then
        bind_err
          (py_div (utilization - warning_threshold) (critical_threshold - warning_threshold))
          (\<lambda>ratio. Inr (70 - ratio * 40))
      else
        bind_err (py_div (utilization - critical_threshold) 10)
          (\<lambda>q. let ratio = min 1 q in Inr (30 - ratio * 30)))"



definition FleetHealthScore_get_status :: "real \<Rightarrow> HealthStatus" where
  "FleetHealthScore_get_status score =
     (if score \<ge> 80 then HEALTHY
      else if score \<ge> 60 then WARNING
      else if score > 0 then CRITICAL
      else UNKNOWN)"

section \<open>metrics.py: ComplianceScore\<close>


definition ComplianceScore_get_status :: "real \<Rightarrow> HealthStatus" where
  "ComplianceScore_get_status score =
     (if score \<ge> COMPLIANCE_WARNING then HEALTHY
      else if score \<ge> COMPLIANCE_CRITICAL then WARNING
      else if score > 0 then CRITICAL
      else UNKNOWN)"

section \<open>metrics.py: CostEfficiencyScore\<close>



definition CostEfficiencyScore_get_status :: "real \<Rightarrow> HealthStatus" where
  "CostEfficiencyScore_get_status score =
     (if score \<ge> 70 then HEALTHY
      else if score \<ge> 40 then WARNING
      else if score > 0 then CRITICAL
      else UNKNOWN)"

section \<open>metrics.py: CapacityUtilization\<close>



definition CapacityUtilization_get_status :: "real \<Rightarrow> HealthStatus" where
  "CapacityUtilization_get_status score =
     (if 20 \<le> score \<and> score \<le> 70 then HEALTHY
      else if (10 \<le> score \<and> score < 20) \<or> (70 < score \<and> score \<le> 85) then WARNING
      else if score > 85 \<or> score < 10 then CRITICAL
      else UNKNOWN)"

section \<open>metrics.py: MetricAggregator\<close>










section \<open>Python built-ins used by the clients\<close>

text \<open>\<^verbatim>\<open>range(start, stop, step)\<close> for a positive step, and the slice \<^verbatim>\<open>xs[i:j]\<close>.\<close>

definition py_range :: "nat \<Rightarrow> nat \<Rightarrow> nat \<Rightarrow> nat list" where
  "py_range start stop step =
     map (\<lambda>k. start + k * step) [0..<(stop - start + step - 1) div step]"

definition py_slice :: "'a list \<Rightarrow> nat \<Rightarrow> nat \<Rightarrow> 'a list" where
  "py_slice xs i j = take (j - i) (drop i xs)"

text \<open>\<^verbatim>\<open>xs[k]\<close>: a negative index counts from the end, an index out of range raises.\<close>

definition py_index :: "'a list \<Rightarrow> int \<Rightarrow> py_error + 'a" where
  "py_index xs k =
     (let n = int (length xs); j = (if k < 0 then n + k else k)
      in if 0 \<le> j \<and> j < n then Inr (xs ! nat j) else Inl IndexError)"

text \<open>
  \<^verbatim>\<open>str.lower\<close> and \<^verbatim>\<open>str.upper\<close> on ASCII letters; every other character is kept.
\<close>

definition lower_char :: "char \<Rightarrow> char" where
  "lower_char c =
     (case map_of (zip ''ABCDEFGHIJKLMNOPQRSTUVWXYZ'' ''abcdefghijklmnopqrstuvwxyz'') c of
        Some l \<Rightarrow> l | None \<Rightarrow> c)"

definition upper_char :: "char \<Rightarrow> char" where
  "upper_char c =
     (case map_of (zip ''abcdefghijklmnopqrstuvwxyz'' ''ABCDEFGHIJKLMNOPQRSTUVWXYZ'') c of
        Some u \<Rightarrow> u | None \<Rightarrow> c)"

definition lower :: "string \<Rightarrow> string" where
  "lower s = map lower_char s"

definition upper :: "string \<Rightarrow> string" where
  "upper s = map upper_char s"

text \<open>\<^verbatim>\<open>str(n)\<close> for \<open>n \<ge> 0\<close>, as the f-string \<^verbatim>\<open>f"m{idx}"\<close> needs it.\<close>

definition digit_char :: "nat \<Rightarrow> char" where
  "digit_char d = ''0123456789'' ! d"

fun str_nat :: "nat \<Rightarrow> string" where
  "str_nat n = (if n < 10 then [digit_char n] else str_nat (n div 10) @ [digit_char (n mod 10)])"

text \<open>
  \<^verbatim>\<open>int(s)\<close> on ASCII text: surrounding whitespace, an optional sign, then decimal digits
  with single underscores between them; anything else is a \<^verbatim>\<open>ValueError\<close>, here \<open>None\<close>.
\<close>

definition is_space :: "char \<Rightarrow> bool" where
  "is_space c =
     (c \<in> set [CHR '' '', CHR 0x09, CHR 0x0A, CHR 0x0B, CHR 0x0C, CHR 0x0D,
               CHR 0x1C, CHR 0x1D, CHR 0x1E, CHR 0x1F])"

definition strip :: "string \<Rightarrow> string" where
  "strip s = rev (dropWhile is_space (rev (dropWhile is_space s)))"

definition digit_value :: "char \<Rightarrow> int option" where
  "digit_value c = map_of (zip ''0123456789'' [0, 1, 2, 3, 4, 5, 6, 7, 8, 9]) c"

fun parse_digits :: "string \<Rightarrow> int \<Rightarrow> int option" where
  "parse_digits [] acc = Some acc"
| "parse_digits [c] acc =
     (case digit_value c of Some d \<Rightarrow> Some (acc * 10 + d) | None \<Rightarrow> None)"
| "parse_digits (c # c' # cs) acc =
     (if c = CHR ''_'' then
        (case digit_value c' of
           Some d \<Rightarrow> parse_digits cs (acc * 10 + d)
         | None \<Rightarrow> None)
      else
        (case digit_value c of
           Some d \<Rightarrow> parse_digits (c' # cs) (acc * 10 + d)
         | None \<Rightarrow> None))"

definition parse_unsigned :: "string \<Rightarrow> int option" where
  "parse_unsigned s =
     (case s of
        [] \<Rightarrow> None
      | c # cs \<Rightarrow> (case digit_value c of Some d \<Rightarrow> parse_digits cs d | None \<Rightarrow> None))"

definition py_int :: "string \<Rightarrow> int option" where
  "py_int s =
     (case strip s of
        [] \<Rightarrow> None
      | c # cs \<Rightarrow>
          if c = CHR ''-'' then map_option uminus (parse_unsigned cs)
          else if c = CHR ''+'' then parse_unsigned cs
          else parse_unsigned (c # cs))"

text \<open>
  A botocore \<^verbatim>\<open>ClientError\<close>: the \<^verbatim>\<open>Code\<close> and \<^verbatim>\<open>Message\<close> of \<^verbatim>\<open>e.response["Error"]\<close>, each
  possibly absent, and the text \<^verbatim>\<open>str(e)\<close>.
\<close>

record ClientError =
  response_code :: "string option"
  response_message :: "string option"
  error_str :: string

definition error_code_of :: "ClientError \<Rightarrow> string" where
  "error_code_of e = (case response_code e of Some c \<Rightarrow> c | None \<Rightarrow> ''Unknown'')"

definition error_message_of :: "ClientError \<Rightarrow> string" where
  "error_message_of e = (case response_message e of Some m \<Rightarrow> m | None \<Rightarrow> error_str e)"

section \<open>cloudwatch_client.py: publish_metrics\<close>

datatype cloudwatch_error = CloudWatchClientError string

definition MAX_METRICS_PER_BATCH :: nat where "MAX_METRICS_PER_BATCH = 20"

record MetricDatum =
  MetricName :: string
  Value :: real
  Unit :: string
  Dimensions :: "dimension list"
  Timestamp :: datetime

definition to_cloudwatch_format :: "MetricValue \<Rightarrow> MetricDatum" where
  "to_cloudwatch_format m =
     \<lparr>MetricName = mv_name m, Value = mv_value m, Unit = mv_unit m,
      Dimensions = mv_dimensions m, Timestamp = mv_timestamp m\<rparr>"

text \<open>
  One \<^verbatim>\<open>put_metric_data\<close> request is its namespace and its metric data. The sink
  decides each request from the requests it has received before: \<open>None\<close> accepts,
  \<open>Some e\<close> raises \<open>e\<close>. The world records every request (\<open>put_calls\<close>), the accepted
  ones (\<open>published\<close>), and the error records the publisher logs, each
  \<open>(batch_index, error_code, error_message)\<close>.
\<close>

type_synonym put_request = "string \<times> MetricDatum list"

type_synonym metric_sink = "put_request list \<Rightarrow> put_request \<Rightarrow> ClientError option"

record publish_world =
  put_calls :: "put_request list"
  published :: "put_request list"
  logged_errors :: "(nat \<times> string \<times> string) list"

definition put_metric_data ::
  "metric_sink \<Rightarrow> publish_world \<Rightarrow> string \<Rightarrow> MetricDatum list
     \<Rightarrow> (ClientError + unit) \<times> publish_world" where
  "put_metric_data sink w namespace metric_data =
     (case sink (put_calls w) (namespace, metric_data) of
        None \<Rightarrow>
          (Inr (), w\<lparr>put_calls := put_calls w @ [(namespace, metric_data)],
                     published := published w @ [(namespace, metric_data)]\<rparr>)
      | Some e \<Rightarrow> (Inl e, w\<lparr>put_calls := put_calls w @ [(namespace, metric_data)]\<rparr>))"

text \<open>The loop \<^verbatim>\<open>for batch_index, batch in enumerate(batches)\<close>.\<close>

fun publish_batches ::
  "metric_sink \<Rightarrow> string \<Rightarrow> nat \<Rightarrow> MetricValue list list \<Rightarrow> int \<Rightarrow> publish_world
     \<Rightarrow> (cloudwatch_error + int) \<times> publish_world" where
  "publish_batches sink namespace batch_index [] published_count w = (Inr published_count, w)"
| "publish_batches sink namespace batch_index (batch # rest) published_count w =
     (let metric_data = map to_cloudwatch_format batch
      in case put_metric_data sink w namespace metric_data of
           (Inr u, w') \<Rightarrow>
             publish_batches sink namespace (Suc batch_index) rest
               (published_count + int (length batch)) w'
         | (Inl e, w') \<Rightarrow>
             (let error_code = error_code_of e; error_message = error_message_of e
              in (Inl (CloudWatchClientError
                         (''Failed to publish metrics: '' @ error_code @ '' - ''
                          @ error_message)),
                  w'\<lparr>logged_errors :=
                       logged_errors w' @ [(batch_index, error_code, error_message)]\<rparr>)))"

definition metric_batches :: "MetricValue list \<Rightarrow> MetricValue list list" where
  "metric_batches metrics =
     map (\<lambda>i. py_slice metrics i (i + MAX_METRICS_PER_BATCH))
       (py_range 0 (length metrics) MAX_METRICS_PER_BATCH)"

text \<open>
  \<open>config_namespace\<close> is \<^verbatim>\<open>self.config.metric_namespace\<close>; \<^verbatim>\<open>namespace or ...\<close> takes the
  configured one for \<^verbatim>\<open>None\<close> and for the empty string.
\<close>

definition effective_namespace :: "string \<Rightarrow> string option \<Rightarrow> string" where
  "effective_namespace config_namespace namespace =
     (case namespace of
        None \<Rightarrow> config_namespace
      | Some n \<Rightarrow> if n = [] then config_namespace else n)"

definition publish_metrics ::
  "metric_sink \<Rightarrow> string \<Rightarrow> MetricValue list \<Rightarrow> string option \<Rightarrow> publish_world
     \<Rightarrow> (cloudwatch_error + int) \<times> publish_world" where
  "publish_metrics sink config_namespace metrics namespace w =
     (if metrics = [] then (Inr 0, w)
      else publish_batches sink (effective_namespace config_namespace namespace) 0
             (metric_batches metrics) 0 w)"

section \<open>cloudwatch_client.py: get_metric_data and query_instance_metrics\<close>

text \<open>
  The request's time window is passed to the service unchanged and is left out. A
  result's \<open>result_id\<close> and \<open>result_values\<close> are \<^verbatim>\<open>result.get("Id", "")\<close> and
  \<^verbatim>\<open>result.get("Values", [])\<close>.
\<close>

record MetricDataQuery =
  query_id :: string
  query_namespace :: string
  query_metric_name :: string
  query_instance_id :: string
  query_period :: int
  query_stat :: string

record MetricDataResult =
  result_id :: string
  result_values :: "real list"

record GetMetricDataResponse =
  MetricDataResults :: "MetricDataResult list"
  NextToken :: "string option"

type_synonym metric_data_api =
  "MetricDataQuery list \<Rightarrow> string option \<Rightarrow> ClientError + GetMetricDataResponse"

text \<open>
  The loop \<^verbatim>\<open>while True\<close> of \<^verbatim>\<open>get_metric_data\<close> runs until the service returns no
  token, so it need not end: the model counts the requests down from \<open>fuel\<close>, and
  \<open>None\<close> is a run that has not ended within \<open>fuel\<close> requests.
\<close>

fun get_metric_data_loop ::
  "nat \<Rightarrow> metric_data_api \<Rightarrow> MetricDataQuery list \<Rightarrow> string option \<Rightarrow> MetricDataResult list
     \<Rightarrow> (cloudwatch_error + MetricDataResult list) option" where
  "get_metric_data_loop 0 api queries next_token all_results = None"
| "get_metric_data_loop (Suc fuel) api queries next_token all_results =
     (case api queries next_token of
        Inl e \<Rightarrow>
          Some (Inl (CloudWatchClientError
                       (''Failed to get metric data: '' @ error_code_of e @ '' - ''
                        @ error_message_of e)))
      | Inr response \<Rightarrow>
          (let all_results' = all_results @ MetricDataResults response;
               next_token' = NextToken response
           in if next_token' = None \<or> next_token' = Some [] then Some (Inr all_results')
              else get_metric_data_loop fuel api queries next_token' all_results'))"

definition get_metric_data ::
  "nat \<Rightarrow> metric_data_api \<Rightarrow> MetricDataQuery list
     \<Rightarrow> (cloudwatch_error + MetricDataResult list) option" where
  "get_metric_data fuel api queries = get_metric_data_loop fuel api queries None []"

text \<open>The result dictionary: a key that is present maps to a value or to \<^verbatim>\<open>None\<close>.\<close>

type_synonym metric_results = "string \<rightharpoonup> real option"

definition build_queries ::
  "string list \<Rightarrow> string \<Rightarrow> string \<Rightarrow> int \<Rightarrow> string \<Rightarrow> MetricDataQuery list" where
  "build_queries instance_ids metric_name namespace period stat =
     map (\<lambda>(idx, iid).
            \<lparr>query_id = ''m'' @ str_nat idx, query_namespace = namespace,
             query_metric_name = metric_name, query_instance_id = iid,
             query_period = period, query_stat = stat\<rparr>)
       (zip [0..<length instance_ids] instance_ids)"

text \<open>
  The body of \<^verbatim>\<open>for result in metric_results\<close>: \<open>i\<close> is the batch's first index. A
  \<^verbatim>\<open>ValueError\<close> of \<^verbatim>\<open>int\<close> and an \<^verbatim>\<open>IndexError\<close> of the list access are caught and the
  result is skipped.
\<close>

definition apply_result ::
  "string list \<Rightarrow> nat \<Rightarrow> metric_results \<Rightarrow> MetricDataResult \<Rightarrow> metric_results" where
  "apply_result batch_instance_ids i results result =
     (let qid = result_id result
      in if take 1 qid = ''m'' then
           (case py_int (drop 1 qid) of
              None \<Rightarrow> results
            | Some idx \<Rightarrow>
                (case py_index batch_instance_ids (idx - int i) of
                   Inl e \<Rightarrow> results
                 | Inr iid \<Rightarrow>
                     (case result_values result of
                        [] \<Rightarrow> results
                      | v # vs \<Rightarrow> results(iid \<mapsto> Some v))))
         else results)"

text \<open>
  The loop \<^verbatim>\<open>for i in range(0, len(queries), batch_size)\<close>: a batch whose query fails
  is skipped (\<^verbatim>\<open>continue\<close>).
\<close>

definition batch_size :: nat where "batch_size = 500"

fun query_batches ::
  "nat \<Rightarrow> metric_data_api \<Rightarrow> MetricDataQuery list \<Rightarrow> string list \<Rightarrow> nat list
     \<Rightarrow> metric_results \<Rightarrow> metric_results option" where
  "query_batches fuel api queries instance_ids [] results = Some results"
| "query_batches fuel api queries instance_ids (i # starts) results =
     (let batch_queries = py_slice queries i (i + batch_size);
          batch_instance_ids = py_slice instance_ids i (i + batch_size)
      in case get_metric_data fuel api batch_queries of
           None \<Rightarrow> None
         | Some (Inr metric_results) \<Rightarrow>
             query_batches fuel api queries instance_ids starts
               (foldl (apply_result batch_instance_ids i) results metric_results)
         | Some (Inl e) \<Rightarrow> query_batches fuel api queries instance_ids starts results)"

definition query_instance_metrics ::
  "nat \<Rightarrow> metric_data_api \<Rightarrow> string list \<Rightarrow> string \<Rightarrow> string \<Rightarrow> int \<Rightarrow> string
     \<Rightarrow> metric_results option" where
  "query_instance_metrics fuel api instance_ids metric_name namespace period stat =
     (if instance_ids = [] then Some Map.empty
      else
        (let queries = build_queries instance_ids metric_name namespace period stat;
             results = foldl (\<lambda>d iid. d(iid \<mapsto> None)) Map.empty instance_ids
         in query_batches fuel api queries instance_ids
              (py_range 0 (length queries) batch_size) results))"

section \<open>ssm_client.py: get_instance_compliance\<close>

text \<open>
  The outer \<^verbatim>\<open>try\<close> of \<^verbatim>\<open>get_instance_compliance\<close> guards \<^verbatim>\<open>get_paginator\<close>, which sends no
  request; every request is sent inside the inner \<^verbatim>\<open>try\<close>, so the outer handler is
  never entered and is left out.
\<close>

text \<open>
  A compliance item carries its \<^verbatim>\<open>Status\<close>, possibly absent. What the paginator of
  \<^verbatim>\<open>list_compliance_items\<close> yields for one instance is the pages it delivers and then,
  possibly, the \<^verbatim>\<open>ClientError\<close> that the request for the next page raises.
\<close>

record ComplianceItem =
  Status :: "string option"

record compliance_pages =
  delivered_pages :: "ComplianceItem list list"
  page_failure :: "ClientError option"

type_synonym compliance_api = "string \<Rightarrow> compliance_pages"

type_synonym compliance_map = "string \<rightharpoonup> ComplianceStatus"

definition item_status :: "ComplianceItem \<Rightarrow> string" where
  "item_status item = upper (case Status item of Some s \<Rightarrow> s | None \<Rightarrow> ''UNKNOWN'')"

text \<open>
  The loop \<^verbatim>\<open>for item in page.get("ComplianceItems", [])\<close>; its \<^verbatim>\<open>break\<close> leaves this loop
  only. The read \<^verbatim>\<open>compliance_map[instance_id]\<close> raises on a missing key.
\<close>

fun items_loop ::
  "string \<Rightarrow> ComplianceItem list \<Rightarrow> compliance_map \<Rightarrow> py_error + compliance_map" where
  "items_loop iid [] cm = Inr cm"
| "items_loop iid (item # rest) cm =
     (let status = item_status item
      in if status = ''NON_COMPLIANT'' then Inr (cm(iid \<mapsto> NON_COMPLIANT))
         else if status = ''COMPLIANT'' then
           (case cm iid of
              None \<Rightarrow> Inl KeyError
            | Some current \<Rightarrow>
                if current = COMPLIANCE_UNKNOWN then items_loop iid rest (cm(iid \<mapsto> COMPLIANT))
                else items_loop iid rest cm)
         else items_loop iid rest cm)"

text \<open>The loop \<^verbatim>\<open>for page in paginator.paginate(...)\<close> over the pages delivered.\<close>

fun pages_loop ::
  "string \<Rightarrow> ComplianceItem list list \<Rightarrow> compliance_map \<Rightarrow> py_error + compliance_map" where
  "pages_loop iid [] cm = Inr cm"
| "pages_loop iid (page # rest) cm =
     (case items_loop iid page cm of
        Inl e \<Rightarrow> Inl e
      | Inr cm' \<Rightarrow> pages_loop iid rest cm')"

text \<open>
  The loop \<^verbatim>\<open>for instance_id in instance_ids\<close>. A \<^verbatim>\<open>ClientError\<close> after the delivered
  pages is caught and logged, and the loop goes on: the map keeps what the delivered
  pages have written.
\<close>

fun instances_loop ::
  "compliance_api \<Rightarrow> string list \<Rightarrow> compliance_map \<Rightarrow> py_error + compliance_map" where
  "instances_loop api [] cm = Inr cm"
| "instances_loop api (iid # rest) cm =
     (case pages_loop iid (delivered_pages (api iid)) cm of
        Inl e \<Rightarrow> Inl e
      | Inr cm' \<Rightarrow>
          (case page_failure (api iid) of
             Some e \<Rightarrow> instances_loop api rest cm'
           | None \<Rightarrow> instances_loop api rest cm'))"

definition get_instance_compliance ::
  "compliance_api \<Rightarrow> string list \<Rightarrow> py_error + compliance_map" where
  "get_instance_compliance api instance_ids =
     (let cm = foldl (\<lambda>d iid. d(iid \<mapsto> COMPLIANCE_UNKNOWN)) Map.empty instance_ids
      in if instance_ids = [] then Inr cm else instances_loop api instance_ids cm)"

section \<open>ssm_client.py: get_instance_counts_by_state\<close>

type_synonym state_counts = "string \<rightharpoonup> int"

fun count_states :: "InstanceMetrics list \<Rightarrow> state_counts \<Rightarrow> state_counts" where
  "count_states [] counts = counts"
| "count_states (instance # rest) counts =
     (let st = lower (state instance)
      in case counts st of
           Some n \<Rightarrow> count_states rest (counts(st \<mapsto> n + 1))
         | None \<Rightarrow> count_states rest (counts(st \<mapsto> 1)))"

definition get_instance_counts_by_state :: "InstanceMetrics list \<Rightarrow> state_counts" where
  "get_instance_counts_by_state instances =
     count_states instances
       [''running'' \<mapsto> 0, ''stopped'' \<mapsto> 0, ''pending'' \<mapsto> 0, ''stopping'' \<mapsto> 0,
        ''terminated'' \<mapsto> 0, ''shutting-down'' \<mapsto> 0]"

section \<open>handler.py: _aggregate_instance_metrics\<close>

text \<open>\<^verbatim>\<open>state_counts.get(key, 0)\<close>.\<close>

definition get_count :: "state_counts \<Rightarrow> string \<Rightarrow> int" where
  "get_count counts key = (case counts key of Some n \<Rightarrow> n | None \<Rightarrow> 0)"

text \<open>
  \<^verbatim>\<open>round(sum(values) / len(values), 2)\<close> when there is a value, else the field keeps
  its default \<open>0\<close>.
\<close>

definition average_of :: "real list \<Rightarrow> py_error + real" where
  "average_of values =
     (if values \<noteq> [] then
        bind_err (py_div (sum_list values) (of_nat (length values))) (\<lambda>q. Inr (py_round q 2))
      else Inr 0)"

definition present_values :: "(InstanceMetrics \<Rightarrow> real option) \<Rightarrow> InstanceMetrics list \<Rightarrow> real list" where
  "present_values field instances = List.map_filter field instances"

text \<open>
  The loop \<^verbatim>\<open>for status in compliance_data.values()\<close> on the pair
  \<open>(compliant_instances, non_compliant_instances)\<close>.
\<close>

fun count_compliance :: "ComplianceStatus list \<Rightarrow> int \<times> int \<Rightarrow> int \<times> int" where
  "count_compliance [] counts = counts"
| "count_compliance (status # rest) (compliant, non_compliant) =
     (if status = COMPLIANT then count_compliance rest (compliant + 1, non_compliant)
      else if status = NON_COMPLIANT then count_compliance rest (compliant, non_compliant + 1)
      else count_compliance rest (compliant, non_compliant))"

text \<open>
  \<open>compliance_data\<close> is the dictionary as the list of its items, in the order of
  \<^verbatim>\<open>values()\<close>.
\<close>

definition aggregate_instance_metrics ::
  "InstanceMetrics list \<Rightarrow> state_counts \<Rightarrow> (string \<times> ComplianceStatus) list
     \<Rightarrow> py_error + FleetMetrics" where
  "aggregate_instance_metrics instances counts compliance_data =
     (let fleet_metrics =
            FleetMetrics_default
              \<lparr>total_instances := int (length instances),
               running_instances := get_count counts ''running'',
               stopped_instances := get_count counts ''stopped'',
               pending_instances := get_count counts ''pending'',
               instance_metrics := instances\<rparr>;
          running = filter (\<lambda>i. state i = ''running'') instances
      in bind_err
           (if running \<noteq> [] then
              bind_err (average_of (present_values cpu_utilization running)) (\<lambda>avg_cpu.
              bind_err (average_of (present_values memory_utilization running)) (\<lambda>avg_memory.
              bind_err (average_of (present_values disk_utilization running)) (\<lambda>avg_disk.
                Inr (fleet_metrics
                       \<lparr>avg_cpu_utilization := avg_cpu,
                        avg_memory_utilization := avg_memory,
                        avg_disk_utilization := avg_disk,
                        total_hourly_cost := sum_list (map hourly_cost running)\<rparr>))))
            else Inr fleet_metrics)
           (\<lambda>fleet_metrics.
              case count_compliance (map snd compliance_data)
                     (compliant_instances fleet_metrics, non_compliant_instances fleet_metrics) of
                (compliant, non_compliant) \<Rightarrow>
                  Inr (fleet_metrics
                         \<lparr>compliant_instances := compliant,
                          non_compliant_instances := non_compliant\<rparr>)))"

section \<open>Notions the statements use\<close>

text \<open>The requests that publishing the batches \<open>batches\<close> under \<open>namespace\<close> sends.\<close>

definition put_requests :: "string \<Rightarrow> MetricValue list list \<Rightarrow> put_request list" where
  "put_requests namespace batches = map (\<lambda>b. (namespace, map to_cloudwatch_format b)) batches"

text \<open>
  The compliance policy in the specification's words, on the set of statuses found:
  any non-compliant finding wins, else any compliant one, else unknown.
\<close>

definition spec_verdict :: "string set \<Rightarrow> ComplianceStatus" where
  "spec_verdict statuses =
     (if ''NON_COMPLIANT'' \<in> statuses then NON_COMPLIANT
      else if ''COMPLIANT'' \<in> statuses then COMPLIANT
      else COMPLIANCE_UNKNOWN)"

text \<open>The upper-cased statuses of the findings the paginator delivers for an instance.\<close>

definition delivered_statuses :: "compliance_api \<Rightarrow> string \<Rightarrow> string set" where
  "delivered_statuses api iid = item_status ` set (concat (delivered_pages (api iid)))"

text \<open>The policy continued from an entry already in the map.\<close>

definition merge_verdict :: "ComplianceStatus \<Rightarrow> string set \<Rightarrow> ComplianceStatus" where
  "merge_verdict current statuses =
     (if ''NON_COMPLIANT'' \<in> statuses then NON_COMPLIANT
      else if ''COMPLIANT'' \<in> statuses then
        (if current = COMPLIANCE_UNKNOWN then COMPLIANT else current)
      else current)"

text \<open>An instance counts for the state \<open>st\<close> when its lower-cased state is \<open>st\<close>.\<close>

definition in_state :: "string \<Rightarrow> InstanceMetrics \<Rightarrow> bool" where
  "in_state st i = (lower (state i) = st)"

text \<open>
  What the metric query merges, in the specification's words. \<open>assignment_of\<close> is the
  entry one result writes, if any; \<open>batch_assignments\<close> are the entries of one batch,
  none when its query fails; \<open>all_assignments\<close> are those of all batches in order, and
  \<open>assign\<close> writes one entry.
\<close>

declare str_nat.simps [simp del]

definition assignment_of :: "string list \<Rightarrow> nat \<Rightarrow> MetricDataResult \<Rightarrow> (string \<times> real) option" where
  "assignment_of batch_instance_ids i result =
     (if take 1 (result_id result) = ''m'' then
        (case py_int (drop 1 (result_id result)) of
           None \<Rightarrow> None
         | Some idx \<Rightarrow>
             (case py_index batch_instance_ids (idx - int i) of
                Inl e \<Rightarrow> None
              | Inr iid \<Rightarrow>
                  (case result_values result of [] \<Rightarrow> None | v # vs \<Rightarrow> Some (iid, v))))
      else None)"

definition batch_assignments ::
  "nat \<Rightarrow> metric_data_api \<Rightarrow> MetricDataQuery list \<Rightarrow> string list \<Rightarrow> nat
     \<Rightarrow> (string \<times> real) list" where
  "batch_assignments fuel api queries instance_ids i =
     (case get_metric_data fuel api (py_slice queries i (i + batch_size)) of
        Some (Inr metric_results) \<Rightarrow>
          List.map_filter (assignment_of (py_slice instance_ids i (i + batch_size)) i)
            metric_results
      | Some (Inl e) \<Rightarrow> []
      | None \<Rightarrow> [])"

definition all_assignments ::
  "nat \<Rightarrow> metric_data_api \<Rightarrow> MetricDataQuery list \<Rightarrow> string list \<Rightarrow> nat list
     \<Rightarrow> (string \<times> real) list" where
  "all_assignments fuel api queries instance_ids starts =
     concat (map (batch_assignments fuel api queries instance_ids) starts)"

definition assign :: "metric_results \<Rightarrow> string \<times> real \<Rightarrow> metric_results" where
  "assign results a = results(fst a \<mapsto> Some (snd a))"

section \<open>The scores as the specification words them\<close>

text \<open>
  The definitions of this section follow the specification's sentences, not the
  source; the theorems below compare the source's functions with them.
\<close>

definition spec_clamp :: "real \<Rightarrow> real" where
  "spec_clamp x = (if x < 0 then 0 else if x > 100 then 100 else x)"

definition spec_utilization_curve :: "real \<Rightarrow> real \<Rightarrow> real \<Rightarrow> real" where
  "spec_utilization_curve u w c =
     (if u \<le> w then 100 - (u / w) * 30
      else if u \<le> c then 70 - ((u - w) / (c - w)) * 40
      else 30 - min 1 ((u - c) / 10) * 30)"








section \<open>Rounding and clamping\<close>


lemma spec_clamp_range: "0 \<le> spec_clamp x \<and> spec_clamp x \<le> 100"
  by (simp add: spec_clamp_def)


section \<open>The fleet health score\<close>

lemma utilization_health_curve:
  "w \<noteq> 0 \<Longrightarrow> calculate_utilization_health u w c = Inr (spec_utilization_curve u w c)"
  unfolding calculate_utilization_health_def spec_utilization_curve_def py_div_def bind_err_def
  by (simp add: Let_def)




lemma utilization_curve_continuous:
  fixes w c :: real
  assumes "0 < w" and "w < c"
  shows "continuous_on UNIV (\<lambda>u. spec_utilization_curve u w c)"
proof -
  let ?low = "\<lambda>u::real. 100 - (u / w) * 30"
  let ?mid = "\<lambda>u::real. 70 - ((u - w) / (c - w)) * 40"
  let ?high = "\<lambda>u::real. 30 - min 1 ((u - c) / 10) * 30"
  have low: "continuous_on {..w} ?low"
    by (intro continuous_intros) (use assms in simp)
  have mid: "continuous_on {w..c} ?mid"
    by (intro continuous_intros) (use assms in simp)
  have high: "continuous_on {c..} ?high"
    by (intro continuous_intros) simp
  have upper: "continuous_on ({w..c} \<union> {c..}) (\<lambda>u. if u \<le> c then ?mid u else ?high u)"
    by (rule continuous_on_If [OF closed_atLeastAtMost closed_atLeast mid high])
       (use assms in auto)
  have split: "{w..c} \<union> {c..} = {w..}"
    using assms by auto
  have "continuous_on ({..w} \<union> {w..})
      (\<lambda>u. if u \<le> w then ?low u else (if u \<le> c then ?mid u else ?high u))"
    by (rule continuous_on_If [OF closed_atMost closed_atLeast low upper [unfolded split]])
       (use assms in auto)
  moreover have "{..w} \<union> {w..} = (UNIV :: real set)"
    by auto
  ultimately show ?thesis
    by (simp add: spec_utilization_curve_def)
qed

text \<open>
  Claim C2. For thresholds \<open>0 < w < c\<close> the utilization health helper returns
  \<open>100 - (u / w) * 30\<close> for \<open>u \<le> w\<close>, \<open>70 - ((u - w) / (c - w)) * 40\<close> for \<open>w < u \<le> c\<close>
  and \<open>30 - min 1 ((u - c) / 10) * 30\<close> for \<open>u > c\<close>; its value is \<open>70\<close> at \<open>u = w\<close> and
  \<open>30\<close> at \<open>u = c\<close>, it is continuous in \<open>u\<close>, at the thresholds in particular, and it
  is \<open>0\<close> for every \<open>u \<ge> c + 10\<close>.
\<close>

theorem utilization_health_piecewise:
  assumes "0 < w" and "w < c"
  shows "(u \<le> w \<longrightarrow> calculate_utilization_health u w c = Inr (100 - (u / w) * 30))
    \<and> (w < u \<and> u \<le> c \<longrightarrow>
         calculate_utilization_health u w c = Inr (70 - ((u - w) / (c - w)) * 40))
    \<and> (c < u \<longrightarrow>
         calculate_utilization_health u w c = Inr (30 - min 1 ((u - c) / 10) * 30))
    \<and> calculate_utilization_health w w c = Inr 70
    \<and> calculate_utilization_health c w c = Inr 30
    \<and> continuous_on UNIV (\<lambda>v. projr (calculate_utilization_health v w c))
    \<and> (c + 10 \<le> u \<longrightarrow> calculate_utilization_health u w c = Inr 0)"
proof -
  have pieces: "(u \<le> w \<longrightarrow> calculate_utilization_health u w c = Inr (100 - (u / w) * 30))
    \<and> (w < u \<and> u \<le> c \<longrightarrow>
         calculate_utilization_health u w c = Inr (70 - ((u - w) / (c - w)) * 40))
    \<and> (c < u \<longrightarrow>
         calculate_utilization_health u w c = Inr (30 - min 1 ((u - c) / 10) * 30))
    \<and> calculate_utilization_health w w c = Inr 70
    \<and> calculate_utilization_health c w c = Inr 30
    \<and> (c + 10 \<le> u \<longrightarrow> calculate_utilization_health u w c = Inr 0)"
    using assms
    unfolding calculate_utilization_health_def py_div_def bind_err_def
    by (auto simp add: Let_def min_def)
  have cont: "continuous_on UNIV (\<lambda>v. projr (calculate_utilization_health v w c))"
    using utilization_curve_continuous [OF assms] assms
    by (simp add: utilization_health_curve)
  from pieces cont show ?thesis by simp
qed

theorem utilization_health_piecewise_witness:
  "calculate_utilization_health 35 70 90 = Inr 85
   \<and> calculate_utilization_health 80 70 90 = Inr 50
   \<and> calculate_utilization_health 95 70 90 = Inr 15
   \<and> calculate_utilization_health 70 70 90 = Inr 70
   \<and> calculate_utilization_health 90 70 90 = Inr 30
   \<and> calculate_utilization_health 100 70 90 = Inr 0"
  using utilization_health_piecewise [of 70 90 35] utilization_health_piecewise [of 70 90 80]
    utilization_health_piecewise [of 70 90 95] utilization_health_piecewise [of 70 90 100]
  by simp

section \<open>The cost efficiency score\<close>



section \<open>The capacity utilization score\<close>


section \<open>The status classifiers\<close>

text \<open>
  Claim C10. \<open>CapacityUtilization.get_status\<close> returns \<open>HEALTHY\<close>, \<open>WARNING\<close> or
  \<open>CRITICAL\<close> for every real score and never \<open>UNKNOWN\<close>; the score \<open>0\<close> is \<open>CRITICAL\<close>.
  The classifiers of the other three scores return \<open>UNKNOWN\<close> exactly for the scores
  \<open>\<le> 0\<close>.
\<close>

theorem capacity_status_never_unknown:
  "CapacityUtilization_get_status score \<noteq> UNKNOWN
   \<and> CapacityUtilization_get_status score \<in> {HEALTHY, WARNING, CRITICAL}
   \<and> CapacityUtilization_get_status 0 = CRITICAL
   \<and> (FleetHealthScore_get_status score = UNKNOWN) = (score \<le> 0)
   \<and> (ComplianceScore_get_status score = UNKNOWN) = (score \<le> 0)
   \<and> (CostEfficiencyScore_get_status score = UNKNOWN) = (score \<le> 0)"
  unfolding CapacityUtilization_get_status_def FleetHealthScore_get_status_def
    ComplianceScore_get_status_def CostEfficiencyScore_get_status_def
    COMPLIANCE_WARNING_def COMPLIANCE_CRITICAL_def
  by auto

section \<open>The aggregator\<close>









section \<open>The publisher\<close>

lemma chunk_div_mod:
  fixes n :: nat
  obtains q r where "(n + 19) div 20 = q" and "n + 19 = q * 20 + r" and "r < 20"
proof
  show "(n + 19) div 20 = (n + 19) div 20" by (rule refl)
  show "n + 19 = (n + 19) div 20 * 20 + (n + 19) mod 20" by simp
  show "(n + 19) mod 20 < 20" by simp
qed

lemma chunks_cover: "(n::nat) \<le> (n + 19) div 20 * 20"
proof -
  obtain q r where "(n + 19) div 20 = q" "n + 19 = q * 20 + r" "r < 20"
    by (rule chunk_div_mod)
  then show ?thesis by linarith
qed

lemma chunk_start_less: "k < ((n::nat) + 19) div 20 \<Longrightarrow> k * 20 < n"
proof -
  assume k: "k < (n + 19) div 20"
  obtain q r where "(n + 19) div 20 = q" "n + 19 = q * 20 + r" "r < 20"
    by (rule chunk_div_mod)
  with k show ?thesis by linarith
qed

lemma chunk_full: "Suc k < ((n::nat) + 19) div 20 \<Longrightarrow> 20 \<le> n - k * 20"
proof -
  assume k: "Suc k < (n + 19) div 20"
  obtain q r where "(n + 19) div 20 = q" "n + 19 = q * 20 + r" "r < 20"
    by (rule chunk_div_mod)
  with k show ?thesis by linarith
qed

lemma chunk_last: "\<not> Suc k < ((n::nat) + 19) div 20 \<Longrightarrow> n - k * 20 \<le> 20"
proof -
  assume k: "\<not> Suc k < (n + 19) div 20"
  obtain q r where "(n + 19) div 20 = q" "n + 19 = q * 20 + r" "r < 20"
    by (rule chunk_div_mod)
  with k show ?thesis by linarith
qed

lemma concat_chunks:
  "concat (map (\<lambda>k. take b (drop (k * b) xs)) [0..<m]) = take (m * b) xs"
proof (induction m)
  case 0
  then show ?case by simp
next
  case (Suc m)
  have "take (m * b) xs @ take b (drop (m * b) xs) = take (m * b + b) xs"
    by (simp add: take_add)
  with Suc show ?case by (simp add: add.commute)
qed

lemma metric_batches_eq:
  "metric_batches ms = map (\<lambda>k. take 20 (drop (k * 20) ms)) [0..<(length ms + 19) div 20]"
  unfolding metric_batches_def py_range_def py_slice_def MAX_METRICS_PER_BATCH_def
  by (simp add: comp_def add.commute)

lemma metric_batches_Nil: "metric_batches [] = []"
  by (simp add: metric_batches_eq)

lemma concat_metric_batches: "concat (metric_batches ms) = ms"
  using chunks_cover [of "length ms"] by (simp add: metric_batches_eq concat_chunks)

lemma length_metric_batches: "length (metric_batches ms) = (length ms + 19) div 20"
  by (simp add: metric_batches_eq)

lemma metric_batch_sizes:
  assumes "k < length (metric_batches ms)"
  shows "length (metric_batches ms ! k)
           = (if Suc k < length (metric_batches ms) then 20 else length ms - 20 * k)
         \<and> 0 < length (metric_batches ms ! k) \<and> length (metric_batches ms ! k) \<le> 20"
proof -
  from assms have k: "k < (length ms + 19) div 20"
    by (simp add: length_metric_batches)
  then have nth: "metric_batches ms ! k = take 20 (drop (k * 20) ms)"
    by (simp add: metric_batches_eq)
  have len: "length (metric_batches ms ! k) = min 20 (length ms - k * 20)"
    by (simp add: nth min.commute)
  note pos = chunk_start_less [OF k]
  show ?thesis
  proof (cases "Suc k < (length ms + 19) div 20")
    case True
    from chunk_full [OF True] True show ?thesis
      by (simp add: len length_metric_batches)
  next
    case False
    from chunk_last [OF False] False pos show ?thesis
      by (simp add: len length_metric_batches mult.commute)
  qed
qed

lemma publish_batches_ok:
  "(\<forall>j<length bs. sink (put_calls w @ take j (put_requests ns bs)) (put_requests ns bs ! j) = None)
   \<Longrightarrow> publish_batches sink ns i bs c w
       = (Inr (c + int (length (concat bs))),
          w\<lparr>put_calls := put_calls w @ put_requests ns bs,
            published := published w @ put_requests ns bs\<rparr>)"
proof (induction bs arbitrary: i c w)
  case Nil
  then show ?case by (simp add: put_requests_def)
next
  case (Cons b bs)
  let ?r = "(ns, map to_cloudwatch_format b)"
  let ?w' = "w\<lparr>put_calls := put_calls w @ [?r], published := published w @ [?r]\<rparr>"
  from Cons.prems [rule_format, of 0] have first: "sink (put_calls w) ?r = None"
    by (simp add: put_requests_def)
  have rest: "\<forall>j<length bs.
      sink (put_calls ?w' @ take j (put_requests ns bs)) (put_requests ns bs ! j) = None"
  proof (intro allI impI)
    fix j assume "j < length bs"
    then show "sink (put_calls ?w' @ take j (put_requests ns bs)) (put_requests ns bs ! j) = None"
      using Cons.prems [rule_format, of "Suc j"] by (simp add: put_requests_def)
  qed
  show ?case
    using Cons.IH [OF rest, of "Suc i" "c + int (length b)"] first
    by (simp add: put_metric_data_def put_requests_def Let_def)
qed

lemma publish_batches_fail:
  "k < length bs
   \<Longrightarrow> (\<forall>j<k. sink (put_calls w @ take j (put_requests ns bs)) (put_requests ns bs ! j) = None)
   \<Longrightarrow> sink (put_calls w @ take k (put_requests ns bs)) (put_requests ns bs ! k) = Some e
   \<Longrightarrow> publish_batches sink ns i bs c w
       = (Inl (CloudWatchClientError
                 (''Failed to publish metrics: '' @ error_code_of e @ '' - ''
                  @ error_message_of e)),
          w\<lparr>put_calls := put_calls w @ take (Suc k) (put_requests ns bs),
            published := published w @ take k (put_requests ns bs),
            logged_errors := logged_errors w @ [(i + k, error_code_of e, error_message_of e)]\<rparr>)"
proof (induction bs arbitrary: k i c w)
  case Nil
  then show ?case by simp
next
  case (Cons b bs)
  let ?r = "(ns, map to_cloudwatch_format b)"
  let ?w' = "w\<lparr>put_calls := put_calls w @ [?r], published := published w @ [?r]\<rparr>"
  show ?case
  proof (cases k)
    case 0
    with Cons.prems(3) have "sink (put_calls w) ?r = Some e"
      by (simp add: put_requests_def)
    then show ?thesis
      using 0 by (simp add: put_metric_data_def put_requests_def Let_def)
  next
    case (Suc k')
    from Cons.prems(2) [rule_format, of 0] Suc have first: "sink (put_calls w) ?r = None"
      by (simp add: put_requests_def)
    have k': "k' < length bs" using Cons.prems(1) Suc by simp
    have rest: "\<forall>j<k'.
        sink (put_calls ?w' @ take j (put_requests ns bs)) (put_requests ns bs ! j) = None"
    proof (intro allI impI)
      fix j assume "j < k'"
      then show "sink (put_calls ?w' @ take j (put_requests ns bs)) (put_requests ns bs ! j) = None"
        using Cons.prems(2) [rule_format, of "Suc j"] Suc by (simp add: put_requests_def)
    qed
    have fail: "sink (put_calls ?w' @ take k' (put_requests ns bs)) (put_requests ns bs ! k') = Some e"
      using Cons.prems(3) Suc by (simp add: put_requests_def)
    show ?thesis
      using Cons.IH [OF k' rest fail, of "Suc i" "c + int (length b)"] first Suc
      by (simp add: put_metric_data_def put_requests_def Let_def)
  qed
qed

text \<open>
  Claim C4, as amended. \<open>publish_metrics\<close> splits the points into consecutive batches
  of exactly 20, the last one possibly smaller and none empty, and sends one request
  per batch, in order. When the sink accepts every request the call returns the
  number of input points; an empty input returns \<open>0\<close> and sends nothing. When the
  sink refuses the request of batch \<open>k\<close>, the call stops there and raises
  \<open>CloudWatchClientError\<close> whose text holds the sink's error code and message; the
  batches before \<open>k\<close> stay published, no later batch is sent, and the batch index
  \<open>k\<close> goes to the error log only.
\<close>

theorem publish_metrics_batches:
  "let ns = effective_namespace config_namespace namespace;
       batches = metric_batches metrics;
       reqs = put_requests ns batches
   in concat batches = metrics
      \<and> (\<forall>k<length batches.
            length (batches ! k) = (if Suc k < length batches then 20 else length metrics - 20 * k)
            \<and> 0 < length (batches ! k) \<and> length (batches ! k) \<le> 20)
      \<and> publish_metrics sink config_namespace [] namespace w = (Inr 0, w)
      \<and> ((\<forall>j<length reqs. sink (put_calls w @ take j reqs) (reqs ! j) = None) \<longrightarrow>
           publish_metrics sink config_namespace metrics namespace w
             = (Inr (int (length metrics)),
                w\<lparr>put_calls := put_calls w @ reqs, published := published w @ reqs\<rparr>))
      \<and> (\<forall>k e. k < length reqs
               \<and> (\<forall>j<k. sink (put_calls w @ take j reqs) (reqs ! j) = None)
               \<and> sink (put_calls w @ take k reqs) (reqs ! k) = Some e \<longrightarrow>
           publish_metrics sink config_namespace metrics namespace w
             = (Inl (CloudWatchClientError
                       (''Failed to publish metrics: '' @ error_code_of e @ '' - ''
                        @ error_message_of e)),
                w\<lparr>put_calls := put_calls w @ take (Suc k) reqs,
                  published := published w @ take k reqs,
                  logged_errors :=
                    logged_errors w @ [(k, error_code_of e, error_message_of e)]\<rparr>))"
proof -
  let ?ns = "effective_namespace config_namespace namespace"
  let ?bs = "metric_batches metrics"
  let ?reqs = "put_requests ?ns ?bs"
  have len: "length ?reqs = length ?bs" by (simp add: put_requests_def)
  have empty: "metrics = [] \<Longrightarrow> ?bs = []"
    by (simp add: metric_batches_eq)
  have A: "concat ?bs = metrics" by (rule concat_metric_batches)
  have B: "\<forall>k<length ?bs.
            length (?bs ! k) = (if Suc k < length ?bs then 20 else length metrics - 20 * k)
            \<and> 0 < length (?bs ! k) \<and> length (?bs ! k) \<le> 20"
    using metric_batch_sizes by blast
  have C: "publish_metrics sink config_namespace [] namespace w = (Inr 0, w)"
    by (simp add: publish_metrics_def)
  have D: "(\<forall>j<length ?reqs. sink (put_calls w @ take j ?reqs) (?reqs ! j) = None) \<longrightarrow>
           publish_metrics sink config_namespace metrics namespace w
             = (Inr (int (length metrics)),
                w\<lparr>put_calls := put_calls w @ ?reqs, published := published w @ ?reqs\<rparr>)"
  proof
    assume ok: "\<forall>j<length ?reqs. sink (put_calls w @ take j ?reqs) (?reqs ! j) = None"
    show "publish_metrics sink config_namespace metrics namespace w
             = (Inr (int (length metrics)),
                w\<lparr>put_calls := put_calls w @ ?reqs, published := published w @ ?reqs\<rparr>)"
    proof (cases "metrics = []")
      case True
      then show ?thesis by (simp add: publish_metrics_def metric_batches_Nil put_requests_def)
    next
      case False
      from ok have "\<forall>j<length ?bs. sink (put_calls w @ take j ?reqs) (?reqs ! j) = None"
        by (simp only: len)
      from publish_batches_ok [OF this, of 0 0] False show ?thesis
        by (simp add: publish_metrics_def A)
    qed
  qed
  have E: "\<forall>k e. k < length ?reqs
               \<and> (\<forall>j<k. sink (put_calls w @ take j ?reqs) (?reqs ! j) = None)
               \<and> sink (put_calls w @ take k ?reqs) (?reqs ! k) = Some e \<longrightarrow>
           publish_metrics sink config_namespace metrics namespace w
             = (Inl (CloudWatchClientError
                       (''Failed to publish metrics: '' @ error_code_of e @ '' - ''
                        @ error_message_of e)),
                w\<lparr>put_calls := put_calls w @ take (Suc k) ?reqs,
                  published := published w @ take k ?reqs,
                  logged_errors :=
                    logged_errors w @ [(k, error_code_of e, error_message_of e)]\<rparr>)"
  proof (intro allI impI, elim conjE)
    fix k e
    assume k: "k < length ?reqs"
      and ok: "\<forall>j<k. sink (put_calls w @ take j ?reqs) (?reqs ! j) = None"
      and bad: "sink (put_calls w @ take k ?reqs) (?reqs ! k) = Some e"
    from k have k': "k < length ?bs" by (simp only: len)
    then have "metrics \<noteq> []" using empty by auto
    with publish_batches_fail [OF k' ok bad, of 0 0]
    show "publish_metrics sink config_namespace metrics namespace w
             = (Inl (CloudWatchClientError
                       (''Failed to publish metrics: '' @ error_code_of e @ '' - ''
                        @ error_message_of e)),
                w\<lparr>put_calls := put_calls w @ take (Suc k) ?reqs,
                  published := published w @ take k ?reqs,
                  logged_errors :=
                    logged_errors w @ [(k, error_code_of e, error_message_of e)]\<rparr>)"
      by (simp add: publish_metrics_def)
  qed
  from A B C D E show ?thesis
    unfolding Let_def by blast
qed


lemma metric_batches_25:
  "metric_batches (replicate 25 p) = [replicate 20 p, replicate 5 p]"
proof -
  have "[0..<(2::nat)] = [0, 1]"
    by (simp add: numeral_2_eq_2)
  then show ?thesis
    by (simp add: metric_batches_eq)
qed

theorem publish_metrics_batches_witness:
  "publish_metrics (\<lambda>h r. None) ''Hyperion/FleetManager''
     (replicate 25 \<lparr>mv_name = ''InstanceCount'', mv_value = 3, mv_unit = ''Count'',
                     mv_dimensions = [], mv_timestamp = 0\<rparr>)
     None \<lparr>put_calls = [], published = [], logged_errors = []\<rparr>
   = (Inr 25,
      \<lparr>put_calls =
         [(''Hyperion/FleetManager'',
           replicate 20 \<lparr>MetricName = ''InstanceCount'', Value = 3, Unit = ''Count'',
                          Dimensions = [], Timestamp = 0\<rparr>),
          (''Hyperion/FleetManager'',
           replicate 5 \<lparr>MetricName = ''InstanceCount'', Value = 3, Unit = ''Count'',
                         Dimensions = [], Timestamp = 0\<rparr>)],
       published =
         [(''Hyperion/FleetManager'',
           replicate 20 \<lparr>MetricName = ''InstanceCount'', Value = 3, Unit = ''Count'',
                          Dimensions = [], Timestamp = 0\<rparr>),
          (''Hyperion/FleetManager'',
           replicate 5 \<lparr>MetricName = ''InstanceCount'', Value = 3, Unit = ''Count'',
                         Dimensions = [], Timestamp = 0\<rparr>)],
       logged_errors = []\<rparr>)
   \<and> publish_metrics
       (\<lambda>h r. if length h = 1
              then Some \<lparr>response_code = Some ''Throttling'',
                         response_message = Some ''Rate exceeded'', error_str = ''boom''\<rparr>
              else None)
       ''Hyperion/FleetManager''
       (replicate 25 \<lparr>mv_name = ''InstanceCount'', mv_value = 3, mv_unit = ''Count'',
                       mv_dimensions = [], mv_timestamp = 0\<rparr>)
       None \<lparr>put_calls = [], published = [], logged_errors = []\<rparr>
   = (Inl (CloudWatchClientError ''Failed to publish metrics: Throttling - Rate exceeded''),
      \<lparr>put_calls =
         [(''Hyperion/FleetManager'',
           replicate 20 \<lparr>MetricName = ''InstanceCount'', Value = 3, Unit = ''Count'',
                          Dimensions = [], Timestamp = 0\<rparr>),
          (''Hyperion/FleetManager'',
           replicate 5 \<lparr>MetricName = ''InstanceCount'', Value = 3, Unit = ''Count'',
                         Dimensions = [], Timestamp = 0\<rparr>)],
       published =
         [(''Hyperion/FleetManager'',
           replicate 20 \<lparr>MetricName = ''InstanceCount'', Value = 3, Unit = ''Count'',
                          Dimensions = [], Timestamp = 0\<rparr>)],
       logged_errors = [(1, ''Throttling'', ''Rate exceeded'')]\<rparr>)"
proof -
  let ?p = "\<lparr>mv_name = ''InstanceCount'', mv_value = 3, mv_unit = ''Count'',
             mv_dimensions = [], mv_timestamp = 0\<rparr>"
  let ?w = "\<lparr>put_calls = [], published = [], logged_errors = []\<rparr>"
  let ?e = "\<lparr>response_code = Some ''Throttling'',
             response_message = Some ''Rate exceeded'', error_str = ''boom''\<rparr>"
  let ?bad = "\<lambda>(h :: put_request list) (r :: put_request). if length h = 1 then Some ?e else None"
  note ok = publish_metrics_batches [of "''Hyperion/FleetManager''" None "replicate 25 ?p"
      "\<lambda>h r. None" ?w, unfolded Let_def,
      THEN conjunct2, THEN conjunct2, THEN conjunct2, THEN conjunct1]
  note bad = publish_metrics_batches [of "''Hyperion/FleetManager''" None "replicate 25 ?p"
      ?bad ?w, unfolded Let_def,
      THEN conjunct2, THEN conjunct2, THEN conjunct2, THEN conjunct2, rule_format, of 1 ?e]
  show ?thesis
    using ok bad
    by (simp add: metric_batches_25 put_requests_def effective_namespace_def
        to_cloudwatch_format_def error_code_of_def error_message_of_def)
qed

text \<open>
  The raised error does not tell which batch failed: with the same sink error, a
  failure of batch 0 and a failure of batch 1 raise the same exception.
\<close>

theorem publish_error_hides_batch_index:
  "fst (publish_metrics
         (\<lambda>h r. if length h = 0
                then Some \<lparr>response_code = Some ''Throttling'',
                           response_message = Some ''Rate exceeded'', error_str = ''boom''\<rparr>
                else None)
         ''Hyperion/FleetManager''
         (replicate 25 \<lparr>mv_name = ''InstanceCount'', mv_value = 3, mv_unit = ''Count'',
                         mv_dimensions = [], mv_timestamp = 0\<rparr>)
         None \<lparr>put_calls = [], published = [], logged_errors = []\<rparr>)
     = Inl (CloudWatchClientError ''Failed to publish metrics: Throttling - Rate exceeded'')
   \<and> fst (publish_metrics
         (\<lambda>h r. if length h = 1
                then Some \<lparr>response_code = Some ''Throttling'',
                           response_message = Some ''Rate exceeded'', error_str = ''boom''\<rparr>
                else None)
         ''Hyperion/FleetManager''
         (replicate 25 \<lparr>mv_name = ''InstanceCount'', mv_value = 3, mv_unit = ''Count'',
                         mv_dimensions = [], mv_timestamp = 0\<rparr>)
         None \<lparr>put_calls = [], published = [], logged_errors = []\<rparr>)
     = Inl (CloudWatchClientError ''Failed to publish metrics: Throttling - Rate exceeded'')"
  by (simp add: publish_metrics_def metric_batches_25 put_metric_data_def
      effective_namespace_def error_code_of_def error_message_of_def Let_def)

section \<open>The compliance client\<close>

lemma merge_verdict_empty: "merge_verdict current {} = current"
  by (simp add: merge_verdict_def)

lemma merge_verdict_union:
  "merge_verdict (merge_verdict current A) B = merge_verdict current (A \<union> B)"
  by (simp add: merge_verdict_def)

lemma merge_verdict_unknown: "merge_verdict COMPLIANCE_UNKNOWN S = spec_verdict S"
  by (simp add: merge_verdict_def spec_verdict_def)

lemma merge_verdict_insert_non_compliant:
  "merge_verdict current (insert ''NON_COMPLIANT'' S) = NON_COMPLIANT"
  by (simp add: merge_verdict_def)

lemma items_loop_merge:
  "cm iid = Some current \<Longrightarrow>
   items_loop iid items cm = Inr (cm(iid \<mapsto> merge_verdict current (item_status ` set items)))"
proof (induction items arbitrary: cm current)
  case Nil
  then show ?case by (simp add: merge_verdict_empty map_upd_triv)
next
  case (Cons item rest)
  show ?case
  proof (cases "item_status item = ''NON_COMPLIANT''")
    case True
    then have "merge_verdict current (item_status ` set (item # rest)) = NON_COMPLIANT"
      by (simp add: merge_verdict_def)
    then show ?thesis using True by (simp add: fun_upd_def del: image_insert list.set)
  next
    case nc: False
    show ?thesis
    proof (cases "item_status item = ''COMPLIANT''")
      case True
      show ?thesis
      proof (cases "current = COMPLIANCE_UNKNOWN")
        case unk: True
        have "(cm(iid \<mapsto> COMPLIANT)) iid = Some COMPLIANT" by simp
        from Cons.IH [of "cm(iid \<mapsto> COMPLIANT)" COMPLIANT, OF this] True nc unk Cons.prems
        show ?thesis
          by (simp add: merge_verdict_def fun_upd_def cong: if_cong)
      next
        case known: False
        from Cons.IH [of cm current, OF Cons.prems] True nc known Cons.prems show ?thesis
          by (simp add: merge_verdict_def fun_upd_def cong: if_cong)
      qed
    next
      case False
      from Cons.IH [of cm current, OF Cons.prems] False nc show ?thesis
        by (simp add: merge_verdict_def fun_upd_def cong: if_cong)
    qed
  qed
qed

lemma pages_loop_merge:
  "cm iid = Some current \<Longrightarrow>
   pages_loop iid pages cm
     = Inr (cm(iid \<mapsto> merge_verdict current (item_status ` set (concat pages))))"
proof (induction pages arbitrary: cm current)
  case Nil
  then show ?case by (simp add: merge_verdict_empty map_upd_triv)
next
  case (Cons page rest)
  let ?c = "merge_verdict current (item_status ` set page)"
  have "(cm(iid \<mapsto> ?c)) iid = Some ?c" by simp
  from Cons.IH [of "cm(iid \<mapsto> ?c)" ?c, OF this] show ?case
    by (simp add: items_loop_merge [of cm iid current page, OF Cons.prems] merge_verdict_union
        image_Un fun_upd_def cong: if_cong)
qed

lemma instances_loop_merge:
  "(\<forall>i \<in> set ids. cm i \<noteq> None) \<Longrightarrow>
   \<exists>cm'. instances_loop api ids cm = Inr cm'
     \<and> (\<forall>i. cm' i = (if i \<in> set ids
                      then map_option (\<lambda>current. merge_verdict current (delivered_statuses api i))
                             (cm i)
                      else cm i))"
proof (induction ids arbitrary: cm)
  case Nil
  then show ?case by simp
next
  case (Cons iid rest)
  from Cons.prems obtain current where cur: "cm iid = Some current" by auto
  let ?cm1 = "cm(iid \<mapsto> merge_verdict current (delivered_statuses api iid))"
  have step: "pages_loop iid (delivered_pages (api iid)) cm = Inr ?cm1"
    using pages_loop_merge [of cm iid current "delivered_pages (api iid)", OF cur]
    by (simp add: delivered_statuses_def)
  have "\<forall>i \<in> set rest. ?cm1 i \<noteq> None"
    using Cons.prems by simp
  from Cons.IH [OF this] obtain cm' where
    run: "instances_loop api rest ?cm1 = Inr cm'" and
    val: "\<forall>i. cm' i = (if i \<in> set rest
                      then map_option (\<lambda>current. merge_verdict current (delivered_statuses api i))
                             (?cm1 i)
                      else ?cm1 i)"
    by blast
  have "instances_loop api (iid # rest) cm = Inr cm'"
    by (simp add: step run split: option.split)
  moreover have "\<forall>i. cm' i = (if i \<in> set (iid # rest)
                      then map_option (\<lambda>current. merge_verdict current (delivered_statuses api i))
                             (cm i)
                      else cm i)"
    using val cur by (auto simp add: merge_verdict_union)
  ultimately show ?case by blast
qed

lemma initial_compliance_map:
  "foldl (\<lambda>d iid. d(iid \<mapsto> v)) m ids i = (if i \<in> set ids then Some v else m i)"
  by (induction ids arbitrary: m) auto

text \<open>
  Claim C8, as amended. \<open>get_instance_compliance\<close> returns for every list of
  instances, whatever the paginator delivers or raises. It maps each listed instance
  to \<open>NON_COMPLIANT\<close> if any finding delivered for it is non-compliant, else to
  \<open>COMPLIANT\<close> if one is compliant, else to \<open>UNKNOWN\<close>; the result depends on the set
  of delivered findings only, not on their order or paging. A query failure for one
  instance leaves it with the verdict of the findings delivered before the failure
  (\<open>UNKNOWN\<close> when the first page already fails) and the remaining instances are
  processed all the same.
\<close>

theorem instance_compliance_verdict:
  "\<exists>cm. get_instance_compliance api instance_ids = Inr cm
     \<and> (\<forall>iid. cm iid = (if iid \<in> set instance_ids
                         then Some (spec_verdict (delivered_statuses api iid))
                         else None))
     \<and> (\<forall>iid \<in> set instance_ids.
           page_failure (api iid) \<noteq> None \<and> delivered_pages (api iid) = [] \<longrightarrow>
           cm iid = Some COMPLIANCE_UNKNOWN)
     \<and> (\<forall>api' :: compliance_api. (\<forall>iid \<in> set instance_ids.
                    set (concat (delivered_pages (api' iid)))
                      = set (concat (delivered_pages (api iid)))) \<longrightarrow>
                 get_instance_compliance api' instance_ids = Inr cm)"
proof -
  let ?cm0 = "foldl (\<lambda>d iid. d(iid \<mapsto> COMPLIANCE_UNKNOWN)) Map.empty instance_ids"
  have verdicts: "\<exists>cm. get_instance_compliance a instance_ids = Inr cm
     \<and> (\<forall>iid. cm iid = (if iid \<in> set instance_ids
                         then Some (spec_verdict (delivered_statuses a iid))
                         else None))" for a
  proof (cases "instance_ids = []")
    case True
    then show ?thesis by (simp add: get_instance_compliance_def)
  next
    case False
    have "\<forall>i \<in> set instance_ids. ?cm0 i \<noteq> None"
      by (simp add: initial_compliance_map)
    from instances_loop_merge [OF this, of a] obtain cm' where
      run: "instances_loop a instance_ids ?cm0 = Inr cm'" and
      val: "\<forall>i. cm' i = (if i \<in> set instance_ids
                      then map_option (\<lambda>current. merge_verdict current (delivered_statuses a i))
                             (?cm0 i)
                      else ?cm0 i)"
      by blast
    have "get_instance_compliance a instance_ids = Inr cm'"
      using False run by (simp add: get_instance_compliance_def Let_def)
    moreover have "\<forall>iid. cm' iid = (if iid \<in> set instance_ids
                         then Some (spec_verdict (delivered_statuses a iid))
                         else None)"
      using val by (simp add: initial_compliance_map merge_verdict_unknown)
    ultimately show ?thesis by blast
  qed
  from verdicts [of api] obtain cm where
    run: "get_instance_compliance api instance_ids = Inr cm" and
    val: "\<forall>iid. cm iid = (if iid \<in> set instance_ids
                         then Some (spec_verdict (delivered_statuses api iid))
                         else None)"
    by blast
  have fail: "\<forall>iid \<in> set instance_ids.
           page_failure (api iid) \<noteq> None \<and> delivered_pages (api iid) = [] \<longrightarrow>
           cm iid = Some COMPLIANCE_UNKNOWN"
    using val by (simp add: delivered_statuses_def spec_verdict_def)
  have order: "\<forall>api' :: compliance_api. (\<forall>iid \<in> set instance_ids.
                    set (concat (delivered_pages (api' iid)))
                      = set (concat (delivered_pages (api iid)))) \<longrightarrow>
                 get_instance_compliance api' instance_ids = Inr cm"
  proof (intro allI impI)
    fix api' :: compliance_api
    assume same: "\<forall>iid \<in> set instance_ids.
                    set (concat (delivered_pages (api' iid)))
                      = set (concat (delivered_pages (api iid)))"
    from verdicts [of api'] obtain cm' where
      run': "get_instance_compliance api' instance_ids = Inr cm'" and
      val': "\<forall>iid. cm' iid = (if iid \<in> set instance_ids
                         then Some (spec_verdict (delivered_statuses api' iid))
                         else None)"
      by blast
    have "cm' = cm"
    proof (rule ext)
      fix iid
      show "cm' iid = cm iid"
        using val val' same by (simp add: delivered_statuses_def)
    qed
    with run' show "get_instance_compliance api' instance_ids = Inr cm" by simp
  qed
  from run val fail order show ?thesis by blast
qed


theorem instance_compliance_verdict_witness:
  "\<exists>cm. get_instance_compliance
           (\<lambda>iid. if iid = ''i-1''
                  then \<lparr>delivered_pages =
                          [[\<lparr>Status = Some ''Compliant''\<rparr>],
                           [\<lparr>Status = Some ''non_compliant''\<rparr>, \<lparr>Status = None\<rparr>]],
                        page_failure = None\<rparr>
                  else if iid = ''i-2''
                  then \<lparr>delivered_pages = [],
                        page_failure =
                          Some \<lparr>response_code = Some ''ThrottlingException'',
                                response_message = Some ''Rate exceeded'',
                                error_str = ''throttled''\<rparr>\<rparr>
                  else \<lparr>delivered_pages = [[\<lparr>Status = Some ''COMPLIANT''\<rparr>]],
                        page_failure = None\<rparr>)
           [''i-1'', ''i-2'', ''i-3''] = Inr cm
     \<and> cm ''i-1'' = Some NON_COMPLIANT
     \<and> cm ''i-2'' = Some COMPLIANCE_UNKNOWN
     \<and> cm ''i-3'' = Some COMPLIANT
     \<and> cm ''i-4'' = None
     \<and> get_instance_compliance
           (\<lambda>iid. if iid = ''i-1''
                  then \<lparr>delivered_pages =
                          [[\<lparr>Status = None\<rparr>, \<lparr>Status = Some ''non_compliant''\<rparr>,
                            \<lparr>Status = Some ''Compliant''\<rparr>]],
                        page_failure = None\<rparr>
                  else if iid = ''i-2''
                  then \<lparr>delivered_pages = [], page_failure = None\<rparr>
                  else \<lparr>delivered_pages = [[], [\<lparr>Status = Some ''COMPLIANT''\<rparr>]],
                        page_failure = None\<rparr>)
           [''i-1'', ''i-2'', ''i-3''] = Inr cm"
proof -
  let ?api = "\<lambda>iid. if iid = ''i-1''
                  then \<lparr>delivered_pages =
                          [[\<lparr>Status = Some ''Compliant''\<rparr>],
                           [\<lparr>Status = Some ''non_compliant''\<rparr>, \<lparr>Status = None\<rparr>]],
                        page_failure = None\<rparr>
                  else if iid = ''i-2''
                  then \<lparr>delivered_pages = [],
                        page_failure =
                          Some \<lparr>response_code = Some ''ThrottlingException'',
                                response_message = Some ''Rate exceeded'',
                                error_str = ''throttled''\<rparr>\<rparr>
                  else \<lparr>delivered_pages = [[\<lparr>Status = Some ''COMPLIANT''\<rparr>]],
                        page_failure = None\<rparr>"
  let ?api' = "\<lambda>iid. if iid = ''i-1''
                  then \<lparr>delivered_pages =
                          [[\<lparr>Status = None\<rparr>, \<lparr>Status = Some ''non_compliant''\<rparr>,
                            \<lparr>Status = Some ''Compliant''\<rparr>]],
                        page_failure = None\<rparr>
                  else if iid = ''i-2''
                  then \<lparr>delivered_pages = [], page_failure = None\<rparr>
                  else \<lparr>delivered_pages = [[], [\<lparr>Status = Some ''COMPLIANT''\<rparr>]],
                        page_failure = None\<rparr>"
  let ?ids = "[''i-1'', ''i-2'', ''i-3'']"
  from instance_compliance_verdict [of ?api ?ids] obtain cm where
    all: "get_instance_compliance ?api ?ids = Inr cm
     \<and> (\<forall>iid. cm iid = (if iid \<in> set ?ids
                         then Some (spec_verdict (delivered_statuses ?api iid))
                         else None))
     \<and> (\<forall>iid \<in> set ?ids.
           page_failure (?api iid) \<noteq> None \<and> delivered_pages (?api iid) = [] \<longrightarrow>
           cm iid = Some COMPLIANCE_UNKNOWN)
     \<and> (\<forall>api' :: compliance_api. (\<forall>iid \<in> set ?ids.
                    set (concat (delivered_pages (api' iid)))
                      = set (concat (delivered_pages (?api iid)))) \<longrightarrow>
                 get_instance_compliance api' ?ids = Inr cm)"
    ..
  note run = all [THEN conjunct1]
  note val = all [THEN conjunct2, THEN conjunct1]
  note fail = all [THEN conjunct2, THEN conjunct2, THEN conjunct1]
  note order = all [THEN conjunct2, THEN conjunct2, THEN conjunct2]
  have st: "item_status \<lparr>Status = Some ''Compliant''\<rparr> = ''COMPLIANT''"
    "item_status \<lparr>Status = Some ''non_compliant''\<rparr> = ''NON_COMPLIANT''"
    "item_status \<lparr>Status = Some ''COMPLIANT''\<rparr> = ''COMPLIANT''"
    "item_status \<lparr>Status = None\<rparr> = ''UNKNOWN''"
    by (simp_all add: item_status_def upper_def upper_char_def)
  have c1: "cm ''i-1'' = Some NON_COMPLIANT"
    using val [rule_format, of "''i-1''"]
    by (simp add: delivered_statuses_def spec_verdict_def st)
  have c2: "cm ''i-2'' = Some COMPLIANCE_UNKNOWN"
    using fail [rule_format, of "''i-2''"] by simp
  have c3: "cm ''i-3'' = Some COMPLIANT"
    using val [rule_format, of "''i-3''"]
    by (simp add: delivered_statuses_def spec_verdict_def st)
  have c4: "cm ''i-4'' = None"
    using val [rule_format, of "''i-4''"] by simp
  have same: "\<forall>iid \<in> set ?ids. set (concat (delivered_pages (?api' iid)))
                      = set (concat (delivered_pages (?api iid)))"
    by (simp add: insert_commute)
  have c5: "get_instance_compliance ?api' ?ids = Inr cm"
    by (rule order [THEN spec, of ?api', THEN mp, OF same])
  show ?thesis
    by (intro exI [of _ cm] conjI run c1 c2 c3 c4 c5)
qed

text \<open>
  A failure is not always \<open>UNKNOWN\<close>: when the first page holds a compliant finding
  and the request for the second page raises, the instance stays \<open>COMPLIANT\<close>.
\<close>

theorem compliance_failure_keeps_verdict:
  "(case get_instance_compliance
           (\<lambda>iid. \<lparr>delivered_pages = [[\<lparr>Status = Some ''COMPLIANT''\<rparr>]],
                   page_failure =
                     Some \<lparr>response_code = Some ''ThrottlingException'',
                           response_message = Some ''Rate exceeded'',
                           error_str = ''throttled''\<rparr>\<rparr>)
           [''i-1''] of
      Inl e \<Rightarrow> None
    | Inr cm \<Rightarrow> cm ''i-1'') = Some COMPLIANT"
  by (simp add: get_instance_compliance_def item_status_def upper_def upper_char_def)

section \<open>The snapshot's counts\<close>

lemma count_states_key:
  "count_states xs counts k =
     (case counts k of
        Some v \<Rightarrow> Some (v + int (length (filter (in_state k) xs)))
      | None \<Rightarrow>
          if filter (in_state k) xs = [] then None
          else Some (int (length (filter (in_state k) xs))))"
proof (induction xs arbitrary: counts)
  case Nil
  then show ?case by (simp split: option.split)
next
  case (Cons i xs)
  show ?case
  proof (cases "counts (lower (state i))")
    case None
    show ?thesis
      using None
      by (auto simp add: Cons.IH [of "counts(lower (state i) \<mapsto> 1)"] in_state_def
          split: option.split)
  next
    case (Some n)
    show ?thesis
      using Some
      by (auto simp add: Cons.IH [of "counts(lower (state i) \<mapsto> n + 1)"] in_state_def
          split: option.split)
  qed
qed

lemma get_count_tracked:
  "get_count (get_instance_counts_by_state xs) ''running'' = int (length (filter (in_state ''running'') xs))"
  "get_count (get_instance_counts_by_state xs) ''stopped'' = int (length (filter (in_state ''stopped'') xs))"
  "get_count (get_instance_counts_by_state xs) ''pending'' = int (length (filter (in_state ''pending'') xs))"
  by (simp_all add: get_count_def get_instance_counts_by_state_def count_states_key)

lemma three_states_disjoint:
  "length (filter (in_state ''running'') xs) + length (filter (in_state ''stopped'') xs)
     + length (filter (in_state ''pending'') xs) \<le> length xs"
  by (induction xs) (auto simp add: in_state_def)

lemma average_of_returns: "\<exists>v. average_of values = Inr v"
  by (simp add: average_of_def py_div_def bind_err_def)

lemma count_compliance_filter:
  "count_compliance xs (a, b) =
     (a + int (length (filter (\<lambda>s. s = COMPLIANT) xs)),
      b + int (length (filter (\<lambda>s. s = NON_COMPLIANT) xs)))"
  by (induction xs arbitrary: a b) auto

text \<open>
  Claim C9. The snapshot that \<open>_aggregate_instance_metrics\<close> builds from a list of
  instances and the counts of \<open>get_instance_counts_by_state\<close> is returned without
  raising; its total is the length of the list, its running, stopped and pending
  counts are the numbers of instances in these states, all four are non-negative, and
  \<open>running + stopped + pending \<le> total\<close>, each instance counting for at most one
  of the three. The two compliance counts are non-negative as well.
\<close>

theorem snapshot_count_invariant:
  "\<exists>fm. aggregate_instance_metrics instances (get_instance_counts_by_state instances)
           compliance_data = Inr fm
     \<and> total_instances fm = int (length instances)
     \<and> running_instances fm = int (length (filter (in_state ''running'') instances))
     \<and> stopped_instances fm = int (length (filter (in_state ''stopped'') instances))
     \<and> pending_instances fm = int (length (filter (in_state ''pending'') instances))
     \<and> 0 \<le> total_instances fm \<and> 0 \<le> running_instances fm
     \<and> 0 \<le> stopped_instances fm \<and> 0 \<le> pending_instances fm
     \<and> running_instances fm + stopped_instances fm + pending_instances fm
           \<le> total_instances fm
     \<and> 0 \<le> compliant_instances fm \<and> 0 \<le> non_compliant_instances fm"
proof -
  let ?run = "filter (\<lambda>i. state i = ''running'') instances"
  obtain c where c: "average_of (present_values cpu_utilization ?run) = Inr c"
    using average_of_returns by blast
  obtain m where m: "average_of (present_values memory_utilization ?run) = Inr m"
    using average_of_returns by blast
  obtain d where d: "average_of (present_values disk_utilization ?run) = Inr d"
    using average_of_returns by blast
  note disj = three_states_disjoint [of instances]
  show ?thesis
    using disj
    by (simp add: aggregate_instance_metrics_def Let_def bind_err_def c m d
        count_compliance_filter get_count_tracked FleetMetrics_default_def)
qed

section \<open>The utilization client\<close>

lemma apply_result_assignment:
  "apply_result b i results r =
     (case assignment_of b i r of None \<Rightarrow> results | Some a \<Rightarrow> assign results a)"
  by (simp add: apply_result_def assignment_of_def assign_def Let_def
      split: option.split sum.split list.split)

lemma foldl_apply_result:
  "foldl (apply_result b i) results rs
     = foldl assign results (List.map_filter (assignment_of b i) rs)"
proof (induction rs arbitrary: results)
  case Nil
  then show ?case by (simp add: List.map_filter_simps)
next
  case (Cons r rs)
  show ?case
  proof (cases "assignment_of b i r")
    case None
    then have "apply_result b i results r = results"
      by (simp add: apply_result_assignment [of b i results r])
    with None show ?thesis
      by (simp add: List.map_filter_simps Cons.IH)
  next
    case (Some a)
    then have "apply_result b i results r = assign results a"
      by (simp add: apply_result_assignment [of b i results r])
    with Some show ?thesis
      by (simp add: List.map_filter_simps Cons.IH)
  qed
qed

lemma query_batches_assignments:
  "(\<forall>i \<in> set starts. get_metric_data fuel api (py_slice queries i (i + batch_size)) \<noteq> None)
   \<Longrightarrow> query_batches fuel api queries ids starts results
       = Some (foldl assign results (all_assignments fuel api queries ids starts))"
proof (induction starts arbitrary: results)
  case Nil
  then show ?case by (simp add: all_assignments_def)
next
  case (Cons i starts)
  from Cons.prems obtain r where
    r: "get_metric_data fuel api (py_slice queries i (i + batch_size)) = Some r"
    by auto
  from Cons.prems have rest:
    "\<forall>j \<in> set starts. get_metric_data fuel api (py_slice queries j (j + batch_size)) \<noteq> None"
    by simp
  show ?case
  proof (cases r)
    case (Inl e)
    with r show ?thesis
      using Cons.IH [OF rest, of results]
      by (simp add: all_assignments_def batch_assignments_def Let_def)
  next
    case (Inr rs)
    with r show ?thesis
      using Cons.IH [OF rest,
          of "foldl (apply_result (py_slice ids i (i + batch_size)) i) results rs"]
      by (simp add: all_assignments_def batch_assignments_def Let_def foldl_apply_result)
  qed
qed

lemma foldl_assign_lookup:
  "foldl assign results as x =
     (case map_of (rev as) x of Some v \<Rightarrow> Some (Some v) | None \<Rightarrow> results x)"
proof (induction as arbitrary: results)
  case Nil
  then show ?case by simp
next
  case (Cons a as)
  have "foldl assign results (a # as) x =
      (case map_of (rev as) x of Some v \<Rightarrow> Some (Some v) | None \<Rightarrow> assign results a x)"
    by (simp add: Cons.IH)
  also have "\<dots> =
      (case map_of (rev (a # as)) x of Some v \<Rightarrow> Some (Some v) | None \<Rightarrow> results x)"
    by (cases a) (simp add: assign_def map_add_def split: option.split)
  finally show ?case .
qed

lemma py_index_in_set: "py_index xs k = Inr x \<Longrightarrow> x \<in> set xs"
  by (auto simp add: py_index_def Let_def split: if_splits)

lemma py_slice_subset: "set (py_slice xs i j) \<subseteq> set xs"
  unfolding py_slice_def
  by (meson set_take_subset set_drop_subset subset_trans)

lemma assignment_target:
  "assignment_of (py_slice ids i j) k r = Some (x, v) \<Longrightarrow> x \<in> set ids"
  using py_slice_subset [of ids i j]
  by (auto simp add: assignment_of_def split: if_splits option.splits sum.splits list.splits
      dest: py_index_in_set)

lemma all_assignments_targets:
  "(x, v) \<in> set (all_assignments fuel api queries ids starts) \<Longrightarrow> x \<in> set ids"
  by (auto simp add: all_assignments_def batch_assignments_def List.map_filter_def
      split: option.splits sum.splits dest: assignment_target)


lemma length_build_queries:
  "length (build_queries instance_ids metric_name namespace period stat) = length instance_ids"
  by (simp add: build_queries_def)

lemma query_chunks_cover: "(n::nat) \<le> (n + 499) div 500 * 500"
proof -
  have "n + 499 = (n + 499) div 500 * 500 + (n + 499) mod 500" by simp
  moreover have "(n + 499) mod 500 < 500" by simp
  ultimately show ?thesis by linarith
qed

lemma query_slices:
  "map (\<lambda>i. py_slice qs i (i + batch_size)) (py_range 0 (length qs) batch_size)
     = map (\<lambda>k. take 500 (drop (k * 500) qs)) [0..<(length qs + 499) div 500]"
  unfolding py_range_def py_slice_def batch_size_def
  by (simp add: comp_def add.commute)

lemma concat_query_slices:
  "concat (map (\<lambda>i. py_slice qs i (i + batch_size)) (py_range 0 (length qs) batch_size)) = qs"
  using query_chunks_cover [of "length qs"]
  by (simp only: query_slices concat_chunks) simp

lemma query_slice_length: "length (py_slice qs i (i + batch_size)) \<le> 500"
  by (simp add: py_slice_def batch_size_def)

lemma untouched_outside:
  assumes "x \<notin> set ids"
  shows "map_of (rev (all_assignments fuel api queries ids starts)) x = None"
proof (cases "map_of (rev (all_assignments fuel api queries ids starts)) x")
  case None
  then show ?thesis .
next
  case (Some v)
  then have "(x, v) \<in> set (rev (all_assignments fuel api queries ids starts))"
    by (rule map_of_SomeD)
  then have "x \<in> set ids"
    using all_assignments_targets [of x v fuel api queries ids starts] by simp
  with assms show ?thesis by simp
qed

text \<open>Fuel only bounds the run: a run that has ended keeps its result with more fuel.\<close>

lemma get_metric_data_loop_more_fuel:
  "get_metric_data_loop n api queries tok acc = Some r
   \<Longrightarrow> get_metric_data_loop (n + k) api queries tok acc = Some r"
proof (induction n arbitrary: tok acc)
  case 0
  then show ?case by simp
next
  case (Suc n)
  show ?case
  proof (cases "api queries tok")
    case (Inl e)
    with Suc.prems show ?thesis by simp
  next
    case (Inr response)
    show ?thesis
    proof (cases "NextToken response = None \<or> NextToken response = Some []")
      case True
      with Inr Suc.prems show ?thesis by (simp add: Let_def)
    next
      case False
      with Inr Suc.prems have
        "get_metric_data_loop n api queries (NextToken response)
           (acc @ MetricDataResults response) = Some r"
        by (simp add: Let_def)
      from Suc.IH [OF this] Inr False show ?thesis by (auto simp add: Let_def)
    qed
  qed
qed

lemma get_metric_data_more_fuel:
  "get_metric_data n api queries = Some r \<Longrightarrow> get_metric_data (n + k) api queries = Some r"
  unfolding get_metric_data_def by (rule get_metric_data_loop_more_fuel)

text \<open>
  Claim C5, as amended. \<open>query_instance_metrics\<close> sends the per-instance queries in
  consecutive groups of at most 500, one request sequence per group. When every
  group's pagination ends, it returns a mapping whose keys are exactly the given
  instance identifiers: an instance gets the first value of the last result that
  resolves to it in a group whose query succeeded, and an instance with no such
  datapoint is present with the value \<open>None\<close>, never an error. A group whose query
  fails contributes nothing and the remaining groups are still queried.
\<close>

theorem query_instance_metrics_merge:
  "let queries = build_queries instance_ids metric_name namespace period stat;
       starts = py_range 0 (length queries) batch_size
   in concat (map (\<lambda>i. py_slice queries i (i + batch_size)) starts) = queries
      \<and> (\<forall>i \<in> set starts. length (py_slice queries i (i + batch_size)) \<le> 500)
      \<and> ((\<forall>i \<in> set starts.
             get_metric_data fuel api (py_slice queries i (i + batch_size)) \<noteq> None) \<longrightarrow>
           query_instance_metrics fuel api instance_ids metric_name namespace period stat
             = Some (\<lambda>iid. if iid \<in> set instance_ids
                           then Some (map_of
                                        (rev (all_assignments fuel api queries instance_ids
                                                starts)) iid)
                           else None))"
proof -
  let ?qs = "build_queries instance_ids metric_name namespace period stat"
  let ?starts = "py_range 0 (length ?qs) batch_size"
  let ?as = "all_assignments fuel api ?qs instance_ids ?starts"
  let ?r0 = "foldl (\<lambda>d iid. d(iid \<mapsto> None)) Map.empty instance_ids :: metric_results"
  have A: "concat (map (\<lambda>i. py_slice ?qs i (i + batch_size)) ?starts) = ?qs"
    by (rule concat_query_slices)
  have B: "\<forall>i \<in> set ?starts. length (py_slice ?qs i (i + batch_size)) \<le> 500"
    by (simp add: query_slice_length)
  have C: "(\<forall>i \<in> set ?starts.
             get_metric_data fuel api (py_slice ?qs i (i + batch_size)) \<noteq> None) \<longrightarrow>
           query_instance_metrics fuel api instance_ids metric_name namespace period stat
             = Some (\<lambda>iid. if iid \<in> set instance_ids then Some (map_of (rev ?as) iid)
                           else None)"
  proof
    assume fuel: "\<forall>i \<in> set ?starts.
             get_metric_data fuel api (py_slice ?qs i (i + batch_size)) \<noteq> None"
    have merged: "foldl assign ?r0 ?as
        = (\<lambda>iid. if iid \<in> set instance_ids then Some (map_of (rev ?as) iid) else None)"
    proof (rule ext)
      fix x
      show "foldl assign ?r0 ?as x
          = (if x \<in> set instance_ids then Some (map_of (rev ?as) x) else None)"
      proof (cases "x \<in> set instance_ids")
        case True
        then show ?thesis
          by (simp add: foldl_assign_lookup initial_compliance_map split: option.split)
      next
        case False
        then show ?thesis
          by (simp add: foldl_assign_lookup initial_compliance_map untouched_outside)
      qed
    qed
    show "query_instance_metrics fuel api instance_ids metric_name namespace period stat
             = Some (\<lambda>iid. if iid \<in> set instance_ids then Some (map_of (rev ?as) iid)
                           else None)"
    proof (cases "instance_ids = []")
      case True
      then show ?thesis by (simp add: query_instance_metrics_def)
    next
      case False
      have "query_instance_metrics fuel api instance_ids metric_name namespace period stat
          = query_batches fuel api ?qs instance_ids ?starts ?r0"
        using False by (simp add: query_instance_metrics_def Let_def)
      also have "\<dots> = Some (foldl assign ?r0 ?as)"
        by (rule query_batches_assignments [OF fuel])
      finally show ?thesis by (simp only: merged)
    qed
  qed
  from A B C show ?thesis
    unfolding Let_def by (intro conjI)
qed


theorem query_instance_metrics_merge_witness:
  "map_option (\<lambda>res. (res ''i-1'', res ''i-2'', res ''i-3''))
     (query_instance_metrics 2
        (\<lambda>qs tok. case tok of
             None \<Rightarrow>
               Inr \<lparr>MetricDataResults =
                      [\<lparr>result_id = ''m1'', result_values = [42, 40]\<rparr>,
                       \<lparr>result_id = ''m7'', result_values = [1]\<rparr>],
                    NextToken = Some ''t1''\<rparr>
           | Some t \<Rightarrow>
               Inr \<lparr>MetricDataResults =
                      [\<lparr>result_id = ''m0'', result_values = []\<rparr>,
                       \<lparr>result_id = ''x3'', result_values = [9]\<rparr>],
                    NextToken = None\<rparr>)
        [''i-1'', ''i-2''] ''CPUUtilization'' ''AWS/EC2'' 300 ''Average'')
   = Some (Some None, Some (Some 42), None)"
proof -
  let ?api = "\<lambda>(qs :: MetricDataQuery list) (tok :: string option). case tok of
             None \<Rightarrow>
               Inr \<lparr>MetricDataResults =
                      [\<lparr>result_id = ''m1'', result_values = [42, 40]\<rparr>,
                       \<lparr>result_id = ''m7'', result_values = [1]\<rparr>],
                    NextToken = Some ''t1''\<rparr>
           | Some t \<Rightarrow>
               Inr \<lparr>MetricDataResults =
                      [\<lparr>result_id = ''m0'', result_values = []\<rparr>,
                       \<lparr>result_id = ''x3'', result_values = [9]\<rparr>],
                    NextToken = None\<rparr>"
  let ?ids = "[''i-1'', ''i-2'']"
  let ?qs = "build_queries ?ids ''CPUUtilization'' ''AWS/EC2'' 300 ''Average''"
  have starts: "py_range 0 (length ?qs) batch_size = [0]"
    by (simp add: length_build_queries py_range_def batch_size_def)
  have gmd: "get_metric_data 2 ?api q =
      Some (Inr [\<lparr>result_id = ''m1'', result_values = [42, 40]\<rparr>,
                 \<lparr>result_id = ''m7'', result_values = [1]\<rparr>,
                 \<lparr>result_id = ''m0'', result_values = []\<rparr>,
                 \<lparr>result_id = ''x3'', result_values = [9]\<rparr>])" for q
    by (simp add: get_metric_data_def numeral_2_eq_2)
  have slice: "py_slice ?ids 0 batch_size = ?ids"
    by (simp add: py_slice_def batch_size_def)
  have ints: "py_int ''1'' = Some 1" "py_int ''7'' = Some 7" "py_int ''0'' = Some 0"
    by (simp_all add: py_int_def strip_def is_space_def parse_unsigned_def digit_value_def)
  have a1: "assignment_of ?ids 0 \<lparr>result_id = ''m1'', result_values = [42, 40]\<rparr>
      = Some (''i-2'', 42)"
    by (simp add: assignment_of_def ints py_index_def)
  have a2: "assignment_of ?ids 0 \<lparr>result_id = ''m7'', result_values = [1]\<rparr> = None"
    by (simp add: assignment_of_def ints py_index_def)
  have a3: "assignment_of ?ids 0 \<lparr>result_id = ''m0'', result_values = []\<rparr> = None"
    by (simp add: assignment_of_def ints py_index_def)
  have a4: "assignment_of ?ids 0 \<lparr>result_id = ''x3'', result_values = [9]\<rparr> = None"
    by (simp add: assignment_of_def)
  have as: "all_assignments 2 ?api ?qs ?ids [0] = [(''i-2'', 42)]"
    by (simp add: all_assignments_def batch_assignments_def gmd slice List.map_filter_simps
        a1 a2 a3 a4)
  have fuel: "\<forall>i \<in> set (py_range 0 (length ?qs) batch_size).
      get_metric_data 2 ?api (py_slice ?qs i (i + batch_size)) \<noteq> None"
    by (simp add: starts gmd)
  note run = query_instance_metrics_merge [of ?ids "''CPUUtilization''" "''AWS/EC2''" 300
      "''Average''" 2 ?api, unfolded Let_def, THEN conjunct2, THEN conjunct2, THEN mp, OF fuel]
  show ?thesis
    by (simp add: run starts as)
qed

text \<open>
  An instance without a datapoint is a key of the result, mapped to \<open>None\<close>: the outer
  \<open>Some\<close> is the returned mapping, the inner \<open>Some None\<close> the entry found under the key.
\<close>

theorem missing_datapoint_is_none_entry:
  "map_option (\<lambda>res. res ''i-1'')
     (query_instance_metrics 1
        (\<lambda>qs tok. Inr \<lparr>MetricDataResults = [], NextToken = None\<rparr>)
        [''i-1''] ''CPUUtilization'' ''AWS/EC2'' 300 ''Average'')
   = Some (Some None)"
  by (simp add: query_instance_metrics_def build_queries_def py_range_def batch_size_def
      py_slice_def get_metric_data_def Let_def)

end
